theory Spec2Isabelle
  imports
    Complex_Main
    "HOL-Library.Sublist"
    "HOL-Library.Char_ord"
    "HOL-Library.List_Lexorder"
    "HOL-Library.AList"
begin

section \<open>JavaScript values\<close>

text \<open>
  The user directory console is written in JavaScript; everything it handles is parsed
  JSON (\<open>response.data\<close> of the HTTP client) or a string typed into an input. A value
  is therefore one of the JSON shapes, or \<open>undefined\<close> (the result of reading a property
  that is not there). An object is its list of own properties; the first entry of a key is
  the property's value.

  Strings are lists of 8-bit characters, read as code units in the Latin-1 range; the
  string functions below agree with the JavaScript built-ins on such strings.
  Values carry no reference identity: parsed JSON never shares an array or an object
  between two places, so two arrays or objects met at different places are different
  references.
\<close>

datatype jsval =
    JUndefined
  | JNull
  | JBool bool
  | JNum rat
  | JStr string
  | JArr "jsval list"
  | JObj "(string \<times> jsval) list"

datatype js_error = TypeError

text \<open>ToBoolean: \<open>undefined\<close>, \<open>null\<close>, \<open>false\<close>, \<open>0\<close> and \<open>""\<close> are falsy.\<close>

fun truthy :: "jsval \<Rightarrow> bool" where
  "truthy JUndefined = False"
| "truthy JNull = False"
| "truthy (JBool b) = b"
| "truthy (JNum r) = (r \<noteq> 0)"
| "truthy (JStr s) = (s \<noteq> [])"
| "truthy (JArr xs) = True"
| "truthy (JObj fs) = True"

text \<open>
  \<open>v.k\<close> for the property names the program reads (none of them is a property of a
  built-in prototype): a TypeError on \<open>undefined\<close> and \<open>null\<close>, the own property of an
  object, \<open>undefined\<close> on everything else.
\<close>

fun get_prop :: "jsval \<Rightarrow> string \<Rightarrow> js_error + jsval" where
  "get_prop JUndefined k = Inl TypeError"
| "get_prop JNull k = Inl TypeError"
| "get_prop (JObj fs) k = Inr (case map_of fs k of None \<Rightarrow> JUndefined | Some v \<Rightarrow> v)"
| "get_prop (JBool b) k = Inr JUndefined"
| "get_prop (JNum r) k = Inr JUndefined"
| "get_prop (JStr s) k = Inr JUndefined"
| "get_prop (JArr xs) k = Inr JUndefined"

text \<open>\<open>Array.isArray\<close>, and the elements of an array.\<close>

fun isArray :: "jsval \<Rightarrow> bool" where
  "isArray (JArr xs) = True"
| "isArray v = False"

fun elements :: "jsval \<Rightarrow> jsval list" where
  "elements (JArr xs) = xs"
| "elements v = []"

text \<open>
  \<open>a === b\<close> and the SameValueZero of \<open>Set\<close>, which agree on JSON values: primitives
  are compared by value, arrays and objects by reference (never equal here, see above).
\<close>

fun strict_eq :: "jsval \<Rightarrow> jsval \<Rightarrow> bool" where
  "strict_eq JUndefined JUndefined = True"
| "strict_eq JNull JNull = True"
| "strict_eq (JBool a) (JBool b) = (a = b)"
| "strict_eq (JNum a) (JNum b) = (a = b)"
| "strict_eq (JStr a) (JStr b) = (a = b)"
| "strict_eq a b = False"

text \<open>
  \<open>String.prototype.toLowerCase\<close>, \<open>includes\<close> and \<open>trim\<close>. In the Latin-1 range the
  upper-case letters are A..Z and the accented capitals 192..222 without the
  multiplication sign 215; white space is 9..13, 32 and 160.
\<close>

definition lower_char :: "char \<Rightarrow> char" where
  "lower_char c =
     (let n = (of_char c :: nat)
      in if (65 \<le> n \<and> n \<le> 90) \<or> (192 \<le> n \<and> n \<le> 222 \<and> n \<noteq> 215)
         then char_of (n + 32) else c)"

definition toLowerCase :: "string \<Rightarrow> string" where
  "toLowerCase s = map lower_char s"

definition js_includes :: "string \<Rightarrow> string \<Rightarrow> bool" where
  "js_includes s t = sublist t s"

definition is_space :: "char \<Rightarrow> bool" where
  "is_space c = (let n = (of_char c :: nat) in (9 \<le> n \<and> n \<le> 13) \<or> n = 32 \<or> n = 160)"

definition trim :: "string \<Rightarrow> string" where
  "trim s = rev (dropWhile is_space (rev (dropWhile is_space s)))"

text \<open>
  ToString, as the default \<open>Array.prototype.sort\<close> applies it. The printing of a number
  is the engine's; it is the parameter \<open>ns\<close>.
\<close>

fun join_comma :: "string list \<Rightarrow> string" where
  "join_comma [] = []"
| "join_comma [s] = s"
| "join_comma (s # t # ss) = s @ '','' @ join_comma (t # ss)"

fun toString :: "(rat \<Rightarrow> string) \<Rightarrow> jsval \<Rightarrow> string" where
  "toString ns JUndefined = ''undefined''"
| "toString ns JNull = ''null''"
| "toString ns (JBool b) = (if b then ''true'' else ''false'')"
| "toString ns (JNum r) = ns r"
| "toString ns (JStr s) = s"
| "toString ns (JArr xs) =
     join_comma (map (\<lambda>x. if x = JUndefined \<or> x = JNull then [] else toString ns x) xs)"
| "toString ns (JObj fs) = ''[object Object]''"

text \<open>
  \<open>Array.prototype.filter\<close>, \<open>some\<close> and \<open>forEach\<close> with a callback that may throw: the
  first exception ends the loop and is the result. \<open>some\<close> stops at the first hit.
\<close>

fun js_filter :: "('a \<Rightarrow> js_error + bool) \<Rightarrow> 'a list \<Rightarrow> js_error + 'a list" where
  "js_filter p [] = Inr []"
| "js_filter p (x # xs) =
     (case p x of
        Inl e \<Rightarrow> Inl e
      | Inr b \<Rightarrow>
          (case js_filter p xs of
             Inl e \<Rightarrow> Inl e
           | Inr ys \<Rightarrow> Inr (if b then x # ys else ys)))"

fun js_some :: "('a \<Rightarrow> js_error + bool) \<Rightarrow> 'a list \<Rightarrow> js_error + bool" where
  "js_some p [] = Inr False"
| "js_some p (x # xs) =
     (case p x of
        Inl e \<Rightarrow> Inl e
      | Inr b \<Rightarrow> if b then Inr True else js_some p xs)"

fun js_forEach :: "('s \<Rightarrow> 'a \<Rightarrow> js_error + 's) \<Rightarrow> 'a list \<Rightarrow> 's \<Rightarrow> js_error + 's" where
  "js_forEach f [] acc = Inr acc"
| "js_forEach f (x # xs) acc =
     (case f acc x of
        Inl e \<Rightarrow> Inl e
      | Inr acc' \<Rightarrow> js_forEach f xs acc')"

text \<open>\<open>Set.prototype.add\<close> on a set kept in insertion order.\<close>

definition set_add :: "jsval list \<Rightarrow> jsval \<Rightarrow> jsval list" where
  "set_add orgSet v = (if list_ex (\<lambda>x. strict_eq x v) orgSet then orgSet else orgSet @ [v])"

text \<open>\<open>a || b\<close> and \<open>a?.k\<close> on values.\<close>

definition js_or :: "jsval \<Rightarrow> jsval \<Rightarrow> jsval" where
  "js_or a b = (if truthy a then a else b)"

definition opt_prop :: "jsval \<Rightarrow> string \<Rightarrow> jsval" where
  "opt_prop v k = (case get_prop v k of Inl e \<Rightarrow> JUndefined | Inr x \<Rightarrow> x)"

section \<open>The remote gateway\<close>

text \<open>
  \<open>userService\<close> is the boundary to the server. A call either resolves with the parsed
  response body or rejects with an error object; the handlers below take that outcome as
  an argument and return the calls they made.
\<close>

datatype gateway_call =
    GetUsers
  | GetUserById jsval
  | CreateUser jsval
  | UpdateUser jsval
  | DeleteUser jsval

datatype outcome = Resolved jsval | Rejected jsval

section \<open>The form controller (BenutzerForm.jsx)\<close>

text \<open>
  The state of the form component. \<open>formData\<close> is the draft, an object; \<open>errors\<close> maps a
  field name to its message (or to \<open>null\<close> once the field has been edited); \<open>error\<close> is
  the general error, \<open>null\<close> when there is none. The user being edited is the property
  \<open>editUser\<close> of the component, \<open>null\<close> for a new user.
\<close>

record form =
  formData :: "(string \<times> jsval) list"
  errors :: "(string \<times> jsval) list"
  loading :: bool
  error :: jsval
  success :: bool

definition emptyDraft :: "(string \<times> jsval) list" where
  "emptyDraft =
     [(''username'', JStr []), (''firstname'', JStr []), (''lastname'', JStr []),
      (''mail'', JStr []), (''phone'', JStr []), (''organisation'', JStr []), (''role'', JStr [])]"

definition initial_form :: form where
  "initial_form =
     \<lparr> formData = emptyDraft, errors = [], loading = False, error = JNull, success = False \<rparr>"

subsection \<open>Filling the draft (the effect, lines 120-152)\<close>

text \<open>
  The draft the effect writes. For a user being edited it holds the identity and the
  canonical fields, each read under both of its names; \<open>organisation\<close> and \<open>role\<close> stand
  for the values the effect computes from the first membership (lines 123-125 and
  134-135), which nothing below depends on. With no user it is the empty draft, which has
  no identity entry.
\<close>

definition loadedDraft :: "jsval \<Rightarrow> jsval \<Rightarrow> jsval \<Rightarrow> (string \<times> jsval) list" where
  "loadedDraft editUser organisation role =
     (if truthy editUser
      then [(''userUid'', js_or (opt_prop editUser ''userUid'') (JStr [])),
            (''username'', js_or (opt_prop editUser ''username'') (JStr [])),
            (''firstname'',
               js_or (opt_prop editUser ''firstname'') (js_or (opt_prop editUser ''firstName'') (JStr []))),
            (''lastname'',
               js_or (opt_prop editUser ''lastname'') (js_or (opt_prop editUser ''lastName'') (JStr []))),
            (''mail'', js_or (opt_prop editUser ''mail'') (js_or (opt_prop editUser ''email'') (JStr []))),
            (''phone'', js_or (opt_prop editUser ''phone'') (JStr [])),
            (''organisation'', organisation),
            (''role'', role)]
      else emptyDraft)"

definition loadEffect :: "jsval \<Rightarrow> jsval \<Rightarrow> jsval \<Rightarrow> form \<Rightarrow> form" where
  "loadEffect editUser organisation role f =
     f\<lparr>formData := loadedDraft editUser organisation role, errors := [], error := JNull,
       success := False\<rparr>"

subsection \<open>Editing a field (handleChange, lines 159-172)\<close>

text \<open>
  \<open>{...prev, [name]: value}\<close> keeps the place of a key that is there and appends a new
  one, as \<open>AList.update\<close> does. The names are those of the seven inputs.
\<close>

definition form_fields :: "string list" where
  "form_fields =
     [''username'', ''firstname'', ''lastname'', ''mail'', ''phone'', ''organisation'', ''role'']"

definition lookup :: "(string \<times> jsval) list \<Rightarrow> string \<Rightarrow> jsval" where
  "lookup obj k = (case map_of obj k of None \<Rightarrow> JUndefined | Some v \<Rightarrow> v)"

definition handleChange :: "string \<Rightarrow> string \<Rightarrow> form \<Rightarrow> form" where
  "handleChange name v f =
     (let f1 = f\<lparr>formData := AList.update name (JStr v) (formData f)\<rparr>
      in if truthy (lookup (errors f) name)
         then f1\<lparr>errors := AList.update name JNull (errors f)\<rparr>
         else f1)"

subsection \<open>Validation (validateForm, lines 178-205)\<close>

text \<open>
  The pattern \<open>/^[^\s@]+@[^\s@]+\.[^\s@]+$/\<close>: a sequence of pieces, each a character
  class taken once or one or more times, matched against the whole string.
\<close>

datatype cls = Exactly char | NotSpaceNorAt

fun in_cls :: "cls \<Rightarrow> char \<Rightarrow> bool" where
  "in_cls (Exactly c) x = (x = c)"
| "in_cls NotSpaceNorAt x = (\<not> is_space x \<and> x \<noteq> CHR ''@'')"

datatype piece = Once cls | Many cls

fun rx_match :: "piece list \<Rightarrow> string \<Rightarrow> bool" where
  "rx_match [] s = (s = [])"
| "rx_match (Once c # ps) [] = False"
| "rx_match (Once c # ps) (x # xs) = (in_cls c x \<and> rx_match ps xs)"
| "rx_match (Many c # ps) [] = False"
| "rx_match (Many c # ps) (x # xs) =
     (in_cls c x \<and> (rx_match (Many c # ps) xs \<or> rx_match ps xs))"

definition email_pattern :: "piece list" where
  "email_pattern =
     [Many NotSpaceNorAt, Once (Exactly CHR ''@''), Many NotSpaceNorAt, Once (Exactly CHR ''.''),
      Many NotSpaceNorAt]"

text \<open>
  \<open>!v || v.trim() === ''\<close>: a truthy value that is not a string has no \<open>trim\<close>.
\<close>

definition requiredMissing :: "jsval \<Rightarrow> js_error + bool" where
  "requiredMissing v =
     (if \<not> truthy v then Inr True
      else (case v of JStr s \<Rightarrow> Inr (trim s = []) | _ \<Rightarrow> Inl TypeError))"

definition usernameRequired :: jsval where
  "usernameRequired = JStr ''Benutzername ist erforderlich''"

definition firstnameRequired :: jsval where
  "firstnameRequired = JStr ''Vorname ist erforderlich''"

definition lastnameRequired :: jsval where
  "lastnameRequired = JStr ''Nachname ist erforderlich''"

definition mailRequired :: jsval where
  "mailRequired = JStr ''E-Mail ist erforderlich''"

definition mailInvalid :: jsval where
  "mailInvalid = JStr (''Ung'' @ [CHR 0xFC] @ ''ltige E-Mail-Adresse'')"

text \<open>One required field: its entry of \<open>newErrors\<close>, if any.\<close>

definition checkRequired ::
  "(string \<times> jsval) list \<Rightarrow> string \<Rightarrow> jsval \<Rightarrow> js_error + (string \<times> jsval) list" where
  "checkRequired d k msg =
     (case requiredMissing (lookup d k) of
        Inl e \<Rightarrow> Inl e
      | Inr missing \<Rightarrow> Inr (if missing then [(k, msg)] else []))"

text \<open>
  The e-mail: required, and then tested against the pattern as it was typed (not
  trimmed). The tested value is a string, \<open>trim\<close> having been called on it.
\<close>

definition checkMail :: "(string \<times> jsval) list \<Rightarrow> js_error + (string \<times> jsval) list" where
  "checkMail d =
     (case requiredMissing (lookup d ''mail'') of
        Inl e \<Rightarrow> Inl e
      | Inr missing \<Rightarrow>
          if missing then Inr [(''mail'', mailRequired)]
          else (case lookup d ''mail'' of
                  JStr s \<Rightarrow> Inr (if \<not> rx_match email_pattern s then [(''mail'', mailInvalid)] else [])
                | _ \<Rightarrow> Inl TypeError))"

text \<open>\<open>newErrors\<close> at line 203, its entries in the order they are written.\<close>

definition newErrors :: "(string \<times> jsval) list \<Rightarrow> js_error + (string \<times> jsval) list" where
  "newErrors d =
     (case checkRequired d ''username'' usernameRequired of
        Inl e \<Rightarrow> Inl e
      | Inr e1 \<Rightarrow>
          (case checkRequired d ''firstname'' firstnameRequired of
             Inl e \<Rightarrow> Inl e
           | Inr e2 \<Rightarrow>
               (case checkRequired d ''lastname'' lastnameRequired of
                  Inl e \<Rightarrow> Inl e
                | Inr e3 \<Rightarrow>
                    (case checkMail d of
                       Inl e \<Rightarrow> Inl e
                     | Inr e4 \<Rightarrow> Inr (e1 @ e2 @ e3 @ e4)))))"

text \<open>
  \<open>validateForm\<close> stores the errors and returns whether there is none.
\<close>

definition validateForm :: "form \<Rightarrow> js_error + (bool \<times> form)" where
  "validateForm f =
     (case newErrors (formData f) of
        Inl e \<Rightarrow> Inl e
      | Inr errs \<Rightarrow> Inr (errs = [], f\<lparr>errors := errs\<rparr>))"

subsection \<open>Submitting (handleSubmit, lines 210-245)\<close>

definition saveError :: jsval where
  "saveError = JStr ''Fehler beim Speichern des Benutzers. Bitte versuchen Sie es erneut.''"

text \<open>The gateway call of the \<open>try\<close> block: \<open>editUser && editUser.userUid\<close> decides.\<close>

definition submitCall :: "jsval \<Rightarrow> (string \<times> jsval) list \<Rightarrow> gateway_call" where
  "submitCall editUser d =
     (if truthy editUser \<and> truthy (opt_prop editUser ''userUid'')
      then UpdateUser (JObj d)
      else CreateUser (JObj d))"

text \<open>
  \<open>handleSubmit\<close> returns the gateway calls it made, the state it leaves, and the
  exception that left it, if any: a TypeError of the validation leaves it before
  anything is set; one thrown in the \<open>catch\<close> block by a rejection without a value leaves
  it after the \<open>finally\<close> block. On success the form shows the success message; closing
  is done by a timer one second later (\<open>handleClose\<close>).
\<close>

definition handleSubmit ::
  "jsval \<Rightarrow> outcome \<Rightarrow> form \<Rightarrow> gateway_call list \<times> form \<times> js_error option" where
  "handleSubmit editUser gw f =
     (case validateForm f of
        Inl e \<Rightarrow> ([], f, Some e)
      | Inr (valid, f1) \<Rightarrow>
          if \<not> valid then ([], f1, None)
          else
            (let f2 = f1\<lparr>loading := True, error := JNull\<rparr>;
                 call = submitCall editUser (formData f)
             in case gw of
                  Resolved r \<Rightarrow> ([call], f2\<lparr>success := True, loading := False\<rparr>, None)
                | Rejected err \<Rightarrow>
                    (case get_prop err ''response'' of
                       Inl e \<Rightarrow> ([call], f2\<lparr>loading := False\<rparr>, Some e)
                     | Inr response \<Rightarrow>
                         ([call],
                          f2\<lparr>error := js_or (opt_prop (opt_prop response ''data'') ''message'') saveError,
                            loading := False\<rparr>,
                          None))))"

definition handleClose :: "form \<Rightarrow> form" where
  "handleClose f = f\<lparr>formData := emptyDraft, errors := [], error := JNull, success := False\<rparr>"

section \<open>The directory store (Benutzerliste.jsx)\<close>

record store =
  users :: "jsval list"
  loading :: bool
  error :: "string option"
  searchTerm :: string
  organisationFilter :: string
  selectedUser :: jsval
  detailOpen :: bool
  deleteDialogOpen :: bool
  deleteTargetId :: jsval
  organisations :: "jsval list"
  formOpen :: bool
  editingUser :: jsval

definition initial_store :: store where
  "initial_store =
     \<lparr> users = [], loading = False, error = None, searchTerm = [], organisationFilter = [],
       selectedUser = JNull, detailOpen = False, deleteDialogOpen = False,
       deleteTargetId = JNull, organisations = [], formOpen = False, editingUser = JNull \<rparr>"

subsection \<open>Response shapes (fetchUsers, lines 117-134)\<close>

text \<open>
  \<open>userList\<close> after the three format tests: the value of \<open>response._embedded.users\<close> when
  that is truthy, the response itself when it is an array, \<open>response.content\<close> when that is
  an array, and the empty array otherwise. Reading a property of \<open>null\<close> or \<open>undefined\<close>
  throws.
\<close>

definition extractUserList :: "jsval \<Rightarrow> js_error + jsval" where
  "extractUserList response =
     (case get_prop response ''_embedded'' of
        Inl e \<Rightarrow> Inl e
      | Inr embedded \<Rightarrow>
          (case (if truthy embedded then get_prop embedded ''users'' else Inr embedded) of
             Inl e \<Rightarrow> Inl e
           | Inr cond1 \<Rightarrow>
               if truthy cond1 then Inr cond1
               else if isArray response then Inr response
               else
                 (case get_prop response ''content'' of
                    Inl e \<Rightarrow> Inl e
                  | Inr content \<Rightarrow>
                      if truthy content \<and> isArray content then Inr content
                      else Inr (JArr []))))"

text \<open>The sequence handed to \<open>setUsers\<close>: \<open>Array.isArray(userList) ? userList : []\<close>.\<close>

definition normalizeResponse :: "jsval \<Rightarrow> js_error + jsval list" where
  "normalizeResponse response =
     (case extractUserList response of
        Inl e \<Rightarrow> Inl e
      | Inr userList \<Rightarrow> Inr (if isArray userList then elements userList else []))"

subsection \<open>Organisation names (fetchUsers, lines 139-153)\<close>

text \<open>The two nested \<open>forEach\<close> loops that fill \<open>orgSet\<close>.\<close>

definition addOrg :: "jsval list \<Rightarrow> jsval \<Rightarrow> js_error + jsval list" where
  "addOrg orgSet org =
     (case get_prop org ''orgName'' of
        Inl e \<Rightarrow> Inl e
      | Inr name \<Rightarrow> Inr (if truthy name then set_add orgSet name else orgSet))"

definition addUserOrgs :: "jsval list \<Rightarrow> jsval \<Rightarrow> js_error + jsval list" where
  "addUserOrgs orgSet user =
     (case get_prop user ''organisations'' of
        Inl e \<Rightarrow> Inl e
      | Inr orgs \<Rightarrow>
          if truthy orgs \<and> isArray orgs then js_forEach addOrg (elements orgs) orgSet
          else Inr orgSet)"

definition collectOrganisations :: "jsval list \<Rightarrow> js_error + jsval list" where
  "collectOrganisations userList = js_forEach addUserOrgs userList []"

text \<open>
  \<open>Array.from(orgSet).sort()\<close>: the default sort orders by the code units of the
  elements' ToString, and is stable.
\<close>

definition sortOrgs :: "(rat \<Rightarrow> string) \<Rightarrow> jsval list \<Rightarrow> jsval list" where
  "sortOrgs ns orgSet = sort_key (toString ns) orgSet"

subsection \<open>fetchUsers\<close>

definition loadError :: string where
  "loadError = ''Fehler beim Laden der Benutzer''"

text \<open>
  The whole of \<open>fetchUsers\<close>. Every exception of the \<open>try\<close> block, the rejected gateway
  call or a TypeError of the code itself, ends in the \<open>catch\<close> block; what was set before
  the exception stays set.
\<close>

definition fetchUsers :: "(rat \<Rightarrow> string) \<Rightarrow> outcome \<Rightarrow> store \<Rightarrow> gateway_call list \<times> store" where
  "fetchUsers ns gw s =
     (let s1 = s\<lparr>loading := True, error := None\<rparr>
      in case gw of
           Rejected err \<Rightarrow> ([GetUsers], s1\<lparr>error := Some loadError, loading := False\<rparr>)
         | Resolved response \<Rightarrow>
             (case extractUserList response of
                Inl e \<Rightarrow> ([GetUsers], s1\<lparr>error := Some loadError, loading := False\<rparr>)
              | Inr userList \<Rightarrow>
                  (let s2 = s1\<lparr>users := (if isArray userList then elements userList else [])\<rparr>
                   in if isArray userList \<and> length (elements userList) > 0
                      then
                        (case collectOrganisations (elements userList) of
                           Inl e \<Rightarrow> ([GetUsers], s2\<lparr>error := Some loadError, loading := False\<rparr>)
                         | Inr orgSet \<Rightarrow>
                             ([GetUsers],
                              s2\<lparr>organisations := sortOrgs ns orgSet, loading := False\<rparr>))
                      else ([GetUsers], s2\<lparr>loading := False\<rparr>))))"

subsection \<open>extractOrganisations (lines 174-192)\<close>

text \<open>
  The timer callback that the mount effect starts next to the first \<open>fetchUsers\<close>. It
  reads the \<open>users\<close> of the render that started it, which at mount is the empty list. An
  exception of the loop leaves the callback before \<open>setOrganisations\<close>.
\<close>

definition extractOrganisations :: "(rat \<Rightarrow> string) \<Rightarrow> store \<Rightarrow> js_error + store" where
  "extractOrganisations ns s =
     (case collectOrganisations (users s) of
        Inl e \<Rightarrow> Inl e
      | Inr orgSet \<Rightarrow> Inr (s\<lparr>organisations := sortOrgs ns orgSet\<rparr>))"

subsection \<open>The filter engine (applyFilters, lines 243-265)\<close>

text \<open>
  One disjunct of the text predicate:
  \<open>user.f && user.f.toLowerCase().includes(searchLower)\<close>, as \<open>filter\<close> reads it (by its
  truth value). A truthy value that is not a string has no \<open>toLowerCase\<close>: calling it
  throws.
\<close>

definition fieldIncludes :: "jsval \<Rightarrow> string \<Rightarrow> string \<Rightarrow> js_error + bool" where
  "fieldIncludes user f searchLower =
     (case get_prop user f of
        Inl e \<Rightarrow> Inl e
      | Inr v \<Rightarrow>
          if truthy v
          then (case v of
                  JStr s \<Rightarrow> Inr (js_includes (toLowerCase s) searchLower)
                | _ \<Rightarrow> Inl TypeError)
          else Inr False)"

text \<open>\<open>a || b\<close> on truth values: \<open>b\<close> is evaluated only when \<open>a\<close> is falsy.\<close>

definition or_else :: "js_error + bool \<Rightarrow> js_error + bool \<Rightarrow> js_error + bool" where
  "or_else a b = (case a of Inl e \<Rightarrow> Inl e | Inr x \<Rightarrow> if x then Inr True else b)"

definition nameMatches :: "jsval \<Rightarrow> string \<Rightarrow> js_error + bool" where
  "nameMatches user searchLower =
     or_else (fieldIncludes user ''firstname'' searchLower)
       (or_else (fieldIncludes user ''lastname'' searchLower)
          (or_else (fieldIncludes user ''username'' searchLower)
             (fieldIncludes user ''mail'' searchLower)))"

text \<open>
  The organisation predicate:
  \<open>user.organisations && user.organisations.some(org => org.orgName === orgFilter)\<close>.
\<close>

definition orgNameIs :: "string \<Rightarrow> jsval \<Rightarrow> js_error + bool" where
  "orgNameIs orgFilter org =
     (case get_prop org ''orgName'' of
        Inl e \<Rightarrow> Inl e
      | Inr name \<Rightarrow> Inr (strict_eq name (JStr orgFilter)))"

definition orgMatches :: "jsval \<Rightarrow> string \<Rightarrow> js_error + bool" where
  "orgMatches user orgFilter =
     (case get_prop user ''organisations'' of
        Inl e \<Rightarrow> Inl e
      | Inr orgs \<Rightarrow>
          if truthy orgs
          then (case orgs of
                  JArr ms \<Rightarrow> js_some (orgNameIs orgFilter) ms
                | _ \<Rightarrow> Inl TypeError)
          else Inr False)"

text \<open>
  The value of \<open>filtered\<close> at line 268: the text filter when the term is not empty, then
  the organisation filter, on what the text filter left, when the selection is not empty.
\<close>

definition filterUsers :: "string \<Rightarrow> string \<Rightarrow> jsval list \<Rightarrow> js_error + jsval list" where
  "filterUsers nameFilter orgFilter us =
     (case (if nameFilter \<noteq> []
            then js_filter (\<lambda>user. nameMatches user (toLowerCase nameFilter)) us
            else Inr us) of
        Inl e \<Rightarrow> Inl e
      | Inr filtered \<Rightarrow>
          if orgFilter \<noteq> []
          then js_filter (\<lambda>user. orgMatches user orgFilter) filtered
          else Inr filtered)"

text \<open>
  \<open>applyFilters\<close>: with no filter it reloads the users from the gateway; otherwise it
  filters the list in \<open>users\<close> and stores the result in \<open>users\<close>. An exception of a
  predicate leaves the handler before \<open>setUsers\<close>: it is the result \<open>Inl\<close>, and the store
  is as it was.
\<close>

definition applyFilters ::
  "(rat \<Rightarrow> string) \<Rightarrow> string \<Rightarrow> string \<Rightarrow> outcome \<Rightarrow> store
     \<Rightarrow> js_error + (gateway_call list \<times> store)" where
  "applyFilters ns nameFilter orgFilter gw s =
     (if nameFilter = [] \<and> orgFilter = [] then Inr (fetchUsers ns gw s)
      else
        (case filterUsers nameFilter orgFilter (users s) of
           Inl e \<Rightarrow> Inl e
         | Inr filtered \<Rightarrow> Inr ([], s\<lparr>users := filtered\<rparr>)))"

text \<open>
  The two input handlers store the new value and apply both filters. When
  \<open>applyFilters\<close> throws, only the new value has been stored.
\<close>

definition handleNameSearch ::
  "(rat \<Rightarrow> string) \<Rightarrow> string \<Rightarrow> outcome \<Rightarrow> store \<Rightarrow> js_error + (gateway_call list \<times> store)" where
  "handleNameSearch ns v gw s =
     applyFilters ns v (organisationFilter s) gw (s\<lparr>searchTerm := v\<rparr>)"

definition handleOrganisationFilter ::
  "(rat \<Rightarrow> string) \<Rightarrow> string \<Rightarrow> outcome \<Rightarrow> store \<Rightarrow> js_error + (gateway_call list \<times> store)" where
  "handleOrganisationFilter ns v gw s =
     applyFilters ns (searchTerm s) v gw (s\<lparr>organisationFilter := v\<rparr>)"

subsection \<open>Deleting a user (lines 316-356)\<close>

definition handleOpenDeleteDialog :: "jsval \<Rightarrow> store \<Rightarrow> store" where
  "handleOpenDeleteDialog userId s = s\<lparr>deleteTargetId := userId, deleteDialogOpen := True\<rparr>"

definition handleCloseDeleteDialog :: "store \<Rightarrow> store" where
  "handleCloseDeleteDialog s = s\<lparr>deleteDialogOpen := False, deleteTargetId := JNull\<rparr>"

definition deleteError :: string where
  "deleteError = ''Fehler beim L'' @ [CHR 0xF6] @ ''schen des Benutzers''"

text \<open>The callback of the filter at line 344: \<open>user.userUid !== deleteTargetId\<close>.\<close>

definition notTarget :: "jsval \<Rightarrow> jsval \<Rightarrow> js_error + bool" where
  "notTarget target user =
     (case get_prop user ''userUid'' of
        Inl e \<Rightarrow> Inl e
      | Inr uid \<Rightarrow> Inr (\<not> strict_eq uid target))"

text \<open>
  \<open>handleConfirmDelete\<close>: the gateway's delete call, then the local removal, closing the
  dialog and clearing the error. The \<open>catch\<close> block takes the rejected call and any
  TypeError of the removal alike.
\<close>

definition handleConfirmDelete :: "outcome \<Rightarrow> store \<Rightarrow> gateway_call list \<times> store" where
  "handleConfirmDelete gw s =
     (case gw of
        Rejected err \<Rightarrow> ([DeleteUser (deleteTargetId s)], s\<lparr>error := Some deleteError\<rparr>)
      | Resolved r \<Rightarrow>
          (case js_filter (notTarget (deleteTargetId s)) (users s) of
             Inl e \<Rightarrow> ([DeleteUser (deleteTargetId s)], s\<lparr>error := Some deleteError\<rparr>)
           | Inr remaining \<Rightarrow>
               ([DeleteUser (deleteTargetId s)],
                (handleCloseDeleteDialog (s\<lparr>users := remaining\<rparr>))\<lparr>error := None\<rparr>)))"

subsection \<open>The table row (lines 561-564)\<close>

text \<open>
  The texts of the four name cells of a row: the username, the first name, the last name
  and the e-mail, the last three under either of their two field names.
\<close>

definition cell2 :: "jsval \<Rightarrow> string \<Rightarrow> string \<Rightarrow> js_error + jsval" where
  "cell2 user k1 k2 =
     (case get_prop user k1 of
        Inl e \<Rightarrow> Inl e
      | Inr a \<Rightarrow>
          (case get_prop user k2 of
             Inl e \<Rightarrow> Inl e
           | Inr b \<Rightarrow> Inr (js_or a (js_or b (JStr ''-'')))))"

definition rowCells :: "jsval \<Rightarrow> js_error + jsval list" where
  "rowCells user =
     (case get_prop user ''username'' of
        Inl e \<Rightarrow> Inl e
      | Inr n \<Rightarrow>
          (case cell2 user ''firstname'' ''firstName'' of
             Inl e \<Rightarrow> Inl e
           | Inr f \<Rightarrow>
               (case cell2 user ''lastname'' ''lastName'' of
                  Inl e \<Rightarrow> Inl e
                | Inr l \<Rightarrow>
                    (case cell2 user ''mail'' ''email'' of
                       Inl e \<Rightarrow> Inl e
                     | Inr m \<Rightarrow> Inr [js_or n (JStr ''-''), f, l, m]))))"

section \<open>Notions of the specification\<close>

text \<open>
  The three list-response shapes the specification names: an envelope exposing a nested
  users sequence, a bare sequence, a paginated envelope exposing a \<open>content\<close> sequence.
\<close>

definition recognised :: "jsval \<Rightarrow> bool" where
  "recognised response =
     ((case get_prop response ''_embedded'' of
         Inr embedded \<Rightarrow>
           (case get_prop embedded ''users'' of Inr us \<Rightarrow> isArray us | Inl e \<Rightarrow> False)
       | Inl e \<Rightarrow> False)
      \<or> isArray response
      \<or> (case get_prop response ''content'' of Inr c \<Rightarrow> isArray c | Inl e \<Rightarrow> False))"

text \<open>Identifiers are primitive values (strings, in the server's records).\<close>

fun is_primitive :: "jsval \<Rightarrow> bool" where
  "is_primitive (JArr xs) = False"
| "is_primitive (JObj fs) = False"
| "is_primitive v = True"

text \<open>Three user records for the examples.\<close>

definition user_a :: jsval where
  "user_a = JObj [(''userUid'', JStr ''1''), (''username'', JStr ''anna'')]"

definition user_b :: jsval where
  "user_b = JObj [(''userUid'', JStr ''2''), (''username'', JStr ''bob'')]"

definition user_c :: jsval where
  "user_c = JObj [(''userUid'', JStr ''3''), (''username'', JStr ''carl'')]"

text \<open>A printer of numbers for the examples, whose records hold no number.\<close>

definition ns0 :: "rat \<Rightarrow> string" where
  "ns0 r = ''0''"

subsection \<open>User records and the visible subset\<close>

text \<open>
  Reading a field of a record: the value, \<open>undefined\<close> when the field is absent.
\<close>

definition field_of :: "jsval \<Rightarrow> string \<Rightarrow> jsval" where
  "field_of u k = (case get_prop u k of Inr v \<Rightarrow> v | Inl e \<Rightarrow> JUndefined)"

definition text_fields :: "string list" where
  "text_fields = [''firstname'', ''lastname'', ''username'', ''mail'']"

fun is_object :: "jsval \<Rightarrow> bool" where
  "is_object (JObj fs) = True"
| "is_object v = False"

fun absent_or_string :: "jsval \<Rightarrow> bool" where
  "absent_or_string JUndefined = True"
| "absent_or_string JNull = True"
| "absent_or_string (JStr s) = True"
| "absent_or_string v = False"

fun absent :: "jsval \<Rightarrow> bool" where
  "absent JUndefined = True"
| "absent JNull = True"
| "absent v = False"

text \<open>
  A user record of the data model: an object whose four searched fields are strings,
  absent or \<open>null\<close>, and whose memberships, when present, are a sequence of objects.
\<close>

definition wf_user :: "jsval \<Rightarrow> bool" where
  "wf_user u =
     (is_object u
      \<and> list_all (\<lambda>f. absent_or_string (field_of u f)) text_fields
      \<and> (case field_of u ''organisations'' of
            JUndefined \<Rightarrow> True
          | JNull \<Rightarrow> True
          | JArr ms \<Rightarrow> list_all is_object ms
          | _ \<Rightarrow> False))"

definition memberships :: "jsval \<Rightarrow> jsval list" where
  "memberships u = (case field_of u ''organisations'' of JArr ms \<Rightarrow> ms | _ \<Rightarrow> [])"

text \<open>
  The specification's predicates. Text: the term is empty, or it is a case-insensitive
  substring of the first name, the last name, the username or the e-mail. Organisation:
  the selection is empty, or a membership has exactly that organisation name.
  \<open>visible\<close> keeps the users that satisfy both.
\<close>

definition ci_substring :: "string \<Rightarrow> string \<Rightarrow> bool" where
  "ci_substring t s = sublist (toLowerCase t) (toLowerCase s)"

definition text_pred :: "string \<Rightarrow> jsval \<Rightarrow> bool" where
  "text_pred t u =
     (t = [] \<or> list_ex (\<lambda>f. case field_of u f of JStr s \<Rightarrow> ci_substring t s | _ \<Rightarrow> False) text_fields)"

definition org_pred :: "string \<Rightarrow> jsval \<Rightarrow> bool" where
  "org_pred org u = (org = [] \<or> list_ex (\<lambda>m. field_of m ''orgName'' = JStr org) (memberships u))"

definition visible :: "jsval list \<Rightarrow> string \<times> string \<Rightarrow> jsval list" where
  "visible us f = filter (\<lambda>u. text_pred (fst f) u \<and> org_pred (snd f) u) us"

text \<open>
  The same person under the canonical field names and under the historical variants.
\<close>

definition anna_canonical :: jsval where
  "anna_canonical =
     JObj [(''userUid'', JStr ''7''), (''firstname'', JStr ''Anna''), (''lastname'', JStr ''Meier''),
           (''mail'', JStr ''am@example.org'')]"

definition anna_variant :: jsval where
  "anna_variant =
     JObj [(''userUid'', JStr ''7''), (''firstName'', JStr ''Anna''), (''lastName'', JStr ''Meier''),
           (''email'', JStr ''am@example.org'')]"

text \<open>
  The scenario of the specification: \<open>acme_admin\<close> has the organisation Acme with the role
  ADMIN, \<open>acme_plain\<close> has Acme with no role, \<open>no_org\<close> has no organisation.
\<close>

definition acme_admin :: jsval where
  "acme_admin =
     JObj [(''userUid'', JStr ''a''), (''username'', JStr ''acme1''),
           (''organisations'',
              JArr [JObj [(''orgName'', JStr ''Acme''),
                          (''roles'', JArr [JObj [(''roleName'', JStr ''ADMIN'')]])]])]"

definition acme_plain :: jsval where
  "acme_plain =
     JObj [(''userUid'', JStr ''b''), (''username'', JStr ''berta''),
           (''organisations'', JArr [JObj [(''orgName'', JStr ''Acme''), (''roles'', JArr [])]])]"

definition no_org :: jsval where
  "no_org = JObj [(''userUid'', JStr ''c''), (''username'', JStr ''carl'')]"

text \<open>
  A store with two loaded users, after the search for \<open>anna\<close>, and after the search for
  \<open>bob\<close> that follows it.
\<close>

definition two_loaded :: store where
  "two_loaded = initial_store\<lparr>users := [user_a, user_b]\<rparr>"

definition after_anna :: store where
  "after_anna = initial_store\<lparr>users := [user_a], searchTerm := ''anna''\<rparr>"

definition after_bob :: store where
  "after_bob = initial_store\<lparr>users := [], searchTerm := ''bob''\<rparr>"

subsection \<open>The organisation index\<close>

text \<open>
  The specification's index: the non-empty organisation names across all memberships of
  all users, without duplicates, sorted ascending in the lexicographic order of their
  characters. \<open>named_memberships\<close> says that the organisation names of a record are
  strings where they are present.
\<close>

definition named_memberships :: "jsval \<Rightarrow> bool" where
  "named_memberships u = list_all (\<lambda>m. absent_or_string (field_of m ''orgName'')) (memberships u)"

definition membership_names :: "jsval list \<Rightarrow> string list" where
  "membership_names ms =
     concat (map (\<lambda>m. case field_of m ''orgName'' of
                        JStr n \<Rightarrow> (if n = [] then [] else [n])
                      | _ \<Rightarrow> []) ms)"

definition name_strings :: "jsval list \<Rightarrow> string list" where
  "name_strings us = membership_names (concat (map memberships us))"

definition organisation_index :: "jsval list \<Rightarrow> jsval list" where
  "organisation_index us = map JStr (sort (remdups (name_strings us)))"

definition zeta_user :: jsval where
  "zeta_user =
     JObj [(''userUid'', JStr ''z''), (''username'', JStr ''zoe''),
           (''organisations'',
              JArr [JObj [(''orgName'', JStr ''Zeta'')], JObj [(''orgName'', JStr ''Acme'')],
                    JObj [(''orgName'', JStr [])]])]"

definition acme_loaded :: store where
  "acme_loaded = initial_store\<lparr>users := [acme_admin], organisations := [JStr ''Acme'']\<rparr>"

text \<open>
  What one round of the inner loop of the index computation does to \<open>orgSet\<close> when the
  membership is an object with a string, absent or \<open>null\<close> name (used in the proofs).
\<close>

definition org_step :: "jsval list \<Rightarrow> jsval \<Rightarrow> jsval list" where
  "org_step acc m =
     (case field_of m ''orgName'' of
        JStr n \<Rightarrow> (if n = [] \<or> JStr n \<in> set acc then acc else acc @ [JStr n])
      | _ \<Rightarrow> acc)"

subsection \<open>Drafts\<close>

text \<open>
  A required field is blank when it is absent or empty after trimming. An e-mail has the
  form local@domain when it is a local part, \<open>@\<close>, a domain part, a dot and a last part,
  the three parts not empty and free of white space and \<open>@\<close>. A draft carries an identity
  when its \<open>userUid\<close> is truthy. \<open>has_error\<close> says that the errors have an entry for a
  field.
\<close>

definition blank :: "jsval \<Rightarrow> bool" where
  "blank v = (case v of JStr s \<Rightarrow> trim s = [] | _ \<Rightarrow> True)"

definition plain_part :: "string \<Rightarrow> bool" where
  "plain_part p = (p \<noteq> [] \<and> list_all (\<lambda>c. \<not> is_space c \<and> c \<noteq> CHR ''@'') p)"

definition local_at_domain :: "string \<Rightarrow> bool" where
  "local_at_domain s =
     (\<exists>l d t. s = l @ ''@'' @ d @ ''.'' @ t \<and> plain_part l \<and> plain_part d \<and> plain_part t)"

definition mail_ok :: "jsval \<Rightarrow> bool" where
  "mail_ok v = (case v of JStr s \<Rightarrow> local_at_domain s | _ \<Rightarrow> False)"

definition has_error :: "(string \<times> jsval) list \<Rightarrow> string \<Rightarrow> bool" where
  "has_error errs k = (map_of errs k \<noteq> None)"

definition has_identity :: "(string \<times> jsval) list \<Rightarrow> bool" where
  "has_identity d = truthy (lookup d ''userUid'')"

text \<open>The form after a sequence of edits, each a field name and the typed value.\<close>

definition edited :: "form \<Rightarrow> (string \<times> string) list \<Rightarrow> form" where
  "edited f edits = foldl (\<lambda>g e. handleChange (fst e) (snd e) g) f edits"

text \<open>A draft with the three name fields filled and a given e-mail.\<close>

definition filled_draft :: "string \<Rightarrow> (string \<times> jsval) list" where
  "filled_draft m =
     [(''username'', JStr ''amei''), (''firstname'', JStr ''Anna''), (''lastname'', JStr ''Meier''),
      (''mail'', JStr m), (''phone'', JStr []), (''organisation'', JStr []), (''role'', JStr [])]"

definition anna_edits :: "(string \<times> string) list" where
  "anna_edits =
     [(''username'', ''amei''), (''firstname'', ''Anna''), (''lastname'', ''Meier''),
      (''mail'', ''am@example.org'')]"

definition anna_stored :: jsval where
  "anna_stored =
     JObj [(''userUid'', JStr ''7''), (''username'', JStr ''amei''), (''firstname'', JStr ''Anna''),
           (''lastname'', JStr ''Meier''), (''mail'', JStr ''am@example.org'')]"

section \<open>Basic facts about the JavaScript layer\<close>

lemma get_prop_Inl: "get_prop v k = Inl e \<longleftrightarrow> v = JUndefined \<or> v = JNull"
  by (cases v; cases e) auto

lemma strict_eq_refl: "is_primitive v \<Longrightarrow> strict_eq v v"
  by (cases v) auto

lemma js_filter_total:
  "\<forall>x\<in>set xs. p x = Inr (q x) \<Longrightarrow> js_filter p xs = Inr (filter q xs)"
  by (induction xs) auto

lemma js_filter_append:
  "js_filter p (xs @ ys) =
     (case js_filter p xs of
        Inl e \<Rightarrow> Inl e
      | Inr xs' \<Rightarrow> (case js_filter p ys of Inl e \<Rightarrow> Inl e | Inr ys' \<Rightarrow> Inr (xs' @ ys')))"
  by (induction xs) (auto split: sum.splits)

lemma js_filter_keep_all:
  "\<forall>x\<in>set xs. p x = Inr True \<Longrightarrow> js_filter p xs = Inr xs"
  by (induction xs) auto

section \<open>Response shapes\<close>

text \<open>
  Every value other than \<open>null\<close> and \<open>undefined\<close> that has none of the three shapes is
  normalised to the empty sequence.
\<close>

lemma normalizeResponse_other_shapes:
  "\<not> recognised r \<Longrightarrow> r \<noteq> JNull \<Longrightarrow> r \<noteq> JUndefined \<Longrightarrow> normalizeResponse r = Inr []"
  by (cases r)
    (auto simp: recognised_def normalizeResponse_def extractUserList_def get_prop_Inl
      split: sum.splits option.splits)

text \<open>
  C3. The claim is that a response of none of the three shapes, \<open>null\<close> and \<open>undefined\<close>
  included, is normalised to the empty sequence without an exception. On \<open>null\<close> and on
  \<open>undefined\<close> the first format test reads \<open>response._embedded\<close> and throws a TypeError;
  \<open>fetchUsers\<close> catches it, reports the load error and keeps the users it had.
\<close>

theorem normalizeResponse_null_throws:
  "\<not> recognised JNull \<and> \<not> recognised JUndefined
   \<and> normalizeResponse JNull = Inl TypeError
   \<and> normalizeResponse JUndefined = Inl TypeError
   \<and> fetchUsers ns (Resolved JNull) (initial_store\<lparr>users := [user_a]\<rparr>)
       = ([GetUsers], initial_store\<lparr>users := [user_a], error := Some loadError\<rparr>)"
  by (simp add: recognised_def normalizeResponse_def extractUserList_def fetchUsers_def
      initial_store_def)

section \<open>Gateway faults\<close>

text \<open>
  C9. When the gateway rejects the list call, \<open>fetchUsers\<close> sets the load error and
  leaves the loaded users as they were. When it rejects the delete call,
  \<open>handleConfirmDelete\<close> sets the delete error and leaves the users, the open dialog and
  the target id as they were.
\<close>

theorem gateway_fault_keeps_data:
  "fetchUsers ns (Rejected err) s = ([GetUsers], s\<lparr>loading := False, error := Some loadError\<rparr>)
   \<and> users (snd (fetchUsers ns (Rejected err) s)) = users s
   \<and> error (snd (fetchUsers ns (Rejected err) s)) = Some loadError
   \<and> handleConfirmDelete (Rejected err) s
       = ([DeleteUser (deleteTargetId s)], s\<lparr>error := Some deleteError\<rparr>)
   \<and> users (snd (handleConfirmDelete (Rejected err) s)) = users s
   \<and> error (snd (handleConfirmDelete (Rejected err) s)) = Some deleteError
   \<and> deleteDialogOpen (snd (handleConfirmDelete (Rejected err) s)) = deleteDialogOpen s
   \<and> deleteTargetId (snd (handleConfirmDelete (Rejected err) s)) = deleteTargetId s"
  by (simp add: fetchUsers_def handleConfirmDelete_def)

section \<open>Deleting a user\<close>

text \<open>
  C8. The loaded users hold one record \<open>u\<close> with the target id, and every other record
  has another id. When the gateway's delete call succeeds, \<open>handleConfirmDelete\<close> removes
  \<open>u\<close> and keeps the other records as they are and in their order, closes the dialog,
  clears the target and the error, and its only gateway call is the delete call.
\<close>

theorem confirmDelete_removes_exactly_target:
  assumes "users s = xs @ [u] @ ys"
    and "get_prop u ''userUid'' = Inr (deleteTargetId s)"
    and "is_primitive (deleteTargetId s)"
    and "\<forall>v\<in>set (xs @ ys).
           \<exists>uid. get_prop v ''userUid'' = Inr uid \<and> \<not> strict_eq uid (deleteTargetId s)"
  shows "handleConfirmDelete (Resolved r) s =
           ([DeleteUser (deleteTargetId s)],
            s\<lparr>users := xs @ ys, deleteDialogOpen := False, deleteTargetId := JNull,
              error := None\<rparr>)"
proof -
  have keep: "\<forall>v\<in>set (xs @ ys). notTarget (deleteTargetId s) v = Inr True"
  proof
    fix v assume "v \<in> set (xs @ ys)"
    with assms(4) obtain uid where "get_prop v ''userUid'' = Inr uid"
      and "\<not> strict_eq uid (deleteTargetId s)" by blast
    then show "notTarget (deleteTargetId s) v = Inr True" by (simp add: notTarget_def)
  qed
  have drop: "notTarget (deleteTargetId s) u = Inr False"
    using assms(2,3) by (simp add: notTarget_def strict_eq_refl)
  have "js_filter (notTarget (deleteTargetId s)) (users s) = Inr (xs @ ys)"
    using keep drop by (simp add: assms(1) js_filter_append js_filter_keep_all)
  then show ?thesis
    by (simp add: handleConfirmDelete_def handleCloseDeleteDialog_def)
qed

theorem confirmDelete_removes_exactly_target_witness:
  "handleConfirmDelete (Resolved JNull)
     (initial_store\<lparr>users := [user_a, user_b, user_c], deleteDialogOpen := True,
        deleteTargetId := JStr ''2''\<rparr>)
   = ([DeleteUser (JStr ''2'')],
      initial_store\<lparr>users := [user_a, user_c], deleteDialogOpen := False,
        deleteTargetId := JNull, error := None\<rparr>)"
  using confirmDelete_removes_exactly_target
    [of "initial_store\<lparr>users := [user_a, user_b, user_c], deleteDialogOpen := True,
           deleteTargetId := JStr ''2''\<rparr>"
        "[user_a]" user_b "[user_c]" JNull]
  by (simp add: user_a_def user_b_def user_c_def)

section \<open>The filter engine\<close>

lemma toLowerCase_Nil: "toLowerCase t = [] \<longleftrightarrow> t = []"
  by (simp add: toLowerCase_def)

lemma fieldIncludes_typed:
  assumes "is_object u" and "absent_or_string (field_of u f)"
  shows "fieldIncludes u f q =
           Inr (case field_of u f of JStr s \<Rightarrow> s \<noteq> [] \<and> js_includes (toLowerCase s) q | _ \<Rightarrow> False)"
  using assms
  by (cases u; cases "field_of u f") (auto simp: fieldIncludes_def field_of_def split: option.splits)

lemma nameMatches_typed:
  assumes "is_object u" and "\<forall>f\<in>set text_fields. absent_or_string (field_of u f)"
  shows "nameMatches u q =
     Inr (list_ex (\<lambda>f. case field_of u f of JStr s \<Rightarrow> s \<noteq> [] \<and> js_includes (toLowerCase s) q | _ \<Rightarrow> False)
            text_fields)"
  using assms
  by (simp add: nameMatches_def fieldIncludes_typed text_fields_def or_else_def)

lemma nameMatches_text_pred:
  assumes "wf_user u" and "t \<noteq> []"
  shows "nameMatches u (toLowerCase t) = Inr (text_pred t u)"
proof -
  have obj: "is_object u" and flds: "\<forall>f\<in>set text_fields. absent_or_string (field_of u f)"
    using assms(1) by (simp_all add: wf_user_def list_all_iff)
  have "(case v of JStr s \<Rightarrow> s \<noteq> [] \<and> js_includes (toLowerCase s) (toLowerCase t) | _ \<Rightarrow> False)
        = (case v of JStr s \<Rightarrow> ci_substring t s | _ \<Rightarrow> False)" for v
    using assms(2) by (cases v) (auto simp: js_includes_def ci_substring_def toLowerCase_def)
  then show ?thesis
    using assms(2) by (simp add: nameMatches_typed[OF obj flds] text_pred_def)
qed

lemma js_some_total:
  "\<forall>x\<in>set xs. p x = Inr (q x) \<Longrightarrow> js_some p xs = Inr (list_ex q xs)"
  by (induction xs) auto

lemma orgNameIs_object:
  "is_object m \<Longrightarrow> orgNameIs org m = Inr (field_of m ''orgName'' = JStr org)"
  by (cases m; cases "field_of m ''orgName''")
     (auto simp: orgNameIs_def field_of_def split: option.splits)

lemma orgMatches_org_pred:
  assumes "wf_user u" and "org \<noteq> []"
  shows "orgMatches u org = Inr (org_pred org u)"
proof -
  obtain fs where u: "u = JObj fs" using assms(1) by (cases u) (auto simp: wf_user_def)
  have orgs: "get_prop u ''organisations'' = Inr (field_of u ''organisations'')"
    by (simp add: u field_of_def)
  show ?thesis
  proof (cases "field_of u ''organisations''")
    case (JArr ms)
    with assms(1) have "\<forall>m\<in>set ms. is_object m" by (simp add: wf_user_def list_all_iff)
    then have "js_some (orgNameIs org) ms = Inr (list_ex (\<lambda>m. field_of m ''orgName'' = JStr org) ms)"
      by (intro js_some_total) (simp add: orgNameIs_object)
    then show ?thesis using assms(2) JArr orgs
      by (simp add: orgMatches_def org_pred_def memberships_def)
  qed (use assms orgs in \<open>auto simp: orgMatches_def org_pred_def memberships_def wf_user_def\<close>)
qed

lemma filterUsers_visible:
  assumes "\<forall>u\<in>set us. wf_user u"
  shows "filterUsers t org us = Inr (visible us (t, org))"
proof -
  have name: "js_filter (\<lambda>user. nameMatches user (toLowerCase t)) us = Inr (filter (text_pred t) us)"
    if "t \<noteq> []"
    using assms that by (intro js_filter_total) (simp add: nameMatches_text_pred)
  have org: "js_filter (\<lambda>user. orgMatches user org) (filter p us)
               = Inr (filter (org_pred org) (filter p us))"
    if "org \<noteq> []" for p
    using assms that by (intro js_filter_total) (simp add: orgMatches_org_pred)
  have org': "js_filter (\<lambda>user. orgMatches user org) us = Inr (filter (org_pred org) us)"
    if "org \<noteq> []"
    using assms that by (intro js_filter_total) (simp add: orgMatches_org_pred)
  consider "t = []" "org = []" | "t = []" "org \<noteq> []" | "t \<noteq> []" "org = []"
    | "t \<noteq> []" "org \<noteq> []" by blast
  then show ?thesis
  proof cases
    case 1
    then show ?thesis by (simp add: filterUsers_def visible_def text_pred_def org_pred_def)
  next
    case 2
    then show ?thesis using org' by (simp add: filterUsers_def visible_def text_pred_def)
  next
    case 3
    then show ?thesis using name by (simp add: filterUsers_def visible_def org_pred_def)
  next
    case 4
    then show ?thesis using name org[of "text_pred t"]
      by (simp add: filterUsers_def visible_def)
  qed
qed

lemma nameMatches_ignores_organisations:
  "nameMatches (JObj (AList.update ''organisations'' v fs)) q = nameMatches (JObj fs) q"
  by (simp add: nameMatches_def fieldIncludes_def update_conv')

text \<open>
  C5. For users of the data model and a filter with a non-empty term or a non-empty
  organisation, \<open>applyFilters\<close> makes no gateway call and leaves exactly the users that
  satisfy the text predicate and the organisation predicate, in their order. The text
  predicate of the code does not read the memberships: replacing the \<open>organisations\<close>
  field of a record by any value does not change its result.
\<close>

theorem applyFilters_keeps_matching_users:
  assumes "\<forall>u\<in>set (users s). wf_user u" and "t \<noteq> [] \<or> org \<noteq> []"
  shows "applyFilters ns t org gw s
           = Inr ([], s\<lparr>users := filter (\<lambda>u. text_pred t u \<and> org_pred org u) (users s)\<rparr>)
         \<and> (\<forall>v fs q. nameMatches (JObj (AList.update ''organisations'' v fs)) q
                       = nameMatches (JObj fs) q)"
  using assms filterUsers_visible[of "users s" t org]
  by (auto simp: applyFilters_def visible_def nameMatches_ignores_organisations)

theorem applyFilters_keeps_matching_users_witness:
  "applyFilters ns0 [] ''Acme'' (Rejected JNull)
     (initial_store\<lparr>users := [acme_admin, acme_plain, no_org]\<rparr>)
   = Inr ([], initial_store\<lparr>users := [acme_admin, acme_plain]\<rparr>)
   \<and> applyFilters ns0 ''acme'' [] (Rejected JNull)
     (initial_store\<lparr>users := [acme_admin, acme_plain, no_org]\<rparr>)
   = Inr ([], initial_store\<lparr>users := [acme_admin]\<rparr>)"
  using applyFilters_keeps_matching_users
    [of "initial_store\<lparr>users := [acme_admin, acme_plain, no_org]\<rparr>" "[]" "''Acme''" ns0 "Rejected JNull"]
   applyFilters_keeps_matching_users
    [of "initial_store\<lparr>users := [acme_admin, acme_plain, no_org]\<rparr>" "''acme''" "[]" ns0 "Rejected JNull"]
  by (simp add: wf_user_def field_of_def text_fields_def acme_admin_def acme_plain_def no_org_def
      text_pred_def org_pred_def memberships_def ci_substring_def toLowerCase_def lower_char_def
      sublist_code)

text \<open>
  C10. For a record whose four searched fields are each a string, absent or \<open>null\<close>, the
  text predicate returns without an exception; its result is that some field is a
  non-empty string containing the lower-cased term, so an absent or \<open>null\<close> field never
  matches. A record with all four fields absent matches no term, whatever it holds
  under the variant field names the table shows.
\<close>

theorem nameMatches_total_on_absent_fields:
  assumes "is_object u" and "\<forall>f\<in>set text_fields. absent_or_string (field_of u f)"
  shows "nameMatches u q =
           Inr (list_ex (\<lambda>f. case field_of u f of
                                JStr s \<Rightarrow> s \<noteq> [] \<and> js_includes (toLowerCase s) q
                              | _ \<Rightarrow> False) text_fields)
         \<and> ((\<forall>f\<in>set text_fields. absent (field_of u f)) \<longrightarrow> nameMatches u q = Inr False)"
proof -
  have 1: "nameMatches u q =
           Inr (list_ex (\<lambda>f. case field_of u f of
                                JStr s \<Rightarrow> s \<noteq> [] \<and> js_includes (toLowerCase s) q
                              | _ \<Rightarrow> False) text_fields)"
    by (rule nameMatches_typed[OF assms])
  have "(case v of JStr s \<Rightarrow> s \<noteq> [] \<and> js_includes (toLowerCase s) q | _ \<Rightarrow> False) = False"
    if "absent v" for v using that by (cases v) auto
  then have "nameMatches u q = Inr False" if "\<forall>f\<in>set text_fields. absent (field_of u f)"
    using that by (simp add: 1 list_ex_iff)
  with 1 show ?thesis by blast
qed

theorem nameMatches_total_on_absent_fields_witness:
  "nameMatches anna_variant ''anna'' = Inr False
   \<and> rowCells anna_variant = Inr [JStr ''-'', JStr ''Anna'', JStr ''Meier'', JStr ''am@example.org'']
   \<and> nameMatches no_org ''car'' = Inr True"
  using nameMatches_total_on_absent_fields[of anna_variant "''anna''"]
    nameMatches_total_on_absent_fields[of no_org "''car''"]
  by (simp add: anna_variant_def no_org_def field_of_def text_fields_def rowCells_def cell2_def
      js_or_def js_includes_def toLowerCase_def lower_char_def sublist_code)

text \<open>
  C2. The claim is that the load path merges the variant field names into the canonical
  ones, so that the text filter treats a response with variant names like one with
  canonical names. \<open>fetchUsers\<close> stores the records as they come; the table row reads
  both names of a field, the text filter only the canonical one. The record with variant
  names is shown like the canonical one but is not found by the search for its first name.
\<close>

theorem variant_field_names_not_searched:
  "fetchUsers ns0 (Resolved (JArr [anna_variant])) initial_store
     = ([GetUsers], initial_store\<lparr>users := [anna_variant]\<rparr>)
   \<and> filterUsers ''anna'' [] [anna_variant] = Inr []
   \<and> filterUsers ''anna'' [] [anna_canonical] = Inr [anna_canonical]
   \<and> rowCells anna_variant = rowCells anna_canonical"
proof -
  have "fetchUsers ns0 (Resolved (JArr [anna_variant])) initial_store
     = ([GetUsers], initial_store\<lparr>users := [anna_variant]\<rparr>)"
    by (simp add: fetchUsers_def extractUserList_def initial_store_def anna_variant_def
        collectOrganisations_def addUserOrgs_def sortOrgs_def)
  moreover have "filterUsers ''anna'' [] [anna_variant] = Inr []"
    by code_simp
  moreover have "filterUsers ''anna'' [] [anna_canonical] = Inr [anna_canonical]"
    by code_simp
  moreover have "rowCells anna_variant = rowCells anna_canonical"
    by (simp add: rowCells_def cell2_def js_or_def anna_variant_def anna_canonical_def)
  ultimately show ?thesis by blast
qed

text \<open>
  C1, as claimed: after any sequence of non-empty filter operations the displayed users
  are \<open>visible\<close> of the loaded collection and the current filter state. Two users are
  loaded; the search for \<open>anna\<close> leaves the first; the search for \<open>bob\<close> that follows
  filters what is displayed and leaves nothing, while \<open>visible\<close> of the loaded collection
  and the current filter state is the second user.
\<close>

theorem successive_filters_counterexample:
  "handleNameSearch ns0 ''anna'' (Rejected JNull) two_loaded = Inr ([], after_anna)
   \<and> handleNameSearch ns0 ''bob'' (Rejected JNull) after_anna = Inr ([], after_bob)
   \<and> users after_bob = []
   \<and> visible (users two_loaded) (searchTerm after_bob, organisationFilter after_bob) = [user_b]
   \<and> users after_bob \<noteq> visible (users two_loaded) (searchTerm after_bob, organisationFilter after_bob)"
proof -
  have a: "filterUsers ''anna'' [] [user_a, user_b] = Inr [user_a]" by code_simp
  have b: "filterUsers ''bob'' [] [user_a] = Inr []" by code_simp
  have v: "visible [user_a, user_b] (''bob'', []) = [user_b]" by code_simp
  show ?thesis
    using a b v
    by (simp add: handleNameSearch_def applyFilters_def two_loaded_def after_anna_def
        after_bob_def initial_store_def)
qed

text \<open>
  C1, amended. For users of the data model, each \<open>applyFilters\<close> call with a non-empty
  term or organisation replaces the displayed users by \<open>visible\<close> of the users displayed
  before the call. After a first filter and a second one the displayed users are the
  loaded users that satisfy both filters: successive filters compound until the next
  reload.
\<close>

theorem successive_filters_compound:
  assumes "\<forall>u\<in>set (users s). wf_user u"
    and "t1 \<noteq> [] \<or> o1 \<noteq> []" and "t2 \<noteq> [] \<or> o2 \<noteq> []"
  shows "applyFilters ns t1 o1 gw1 s = Inr ([], s\<lparr>users := visible (users s) (t1, o1)\<rparr>)
         \<and> applyFilters ns t2 o2 gw2 (s\<lparr>users := visible (users s) (t1, o1)\<rparr>)
             = Inr ([], s\<lparr>users := visible (visible (users s) (t1, o1)) (t2, o2)\<rparr>)
         \<and> visible (visible (users s) (t1, o1)) (t2, o2)
             = filter (\<lambda>u. (text_pred t1 u \<and> org_pred o1 u) \<and> (text_pred t2 u \<and> org_pred o2 u))
                 (users s)"
proof -
  have wf1: "\<forall>u\<in>set (visible (users s) (t1, o1)). wf_user u"
    using assms(1) by (simp add: visible_def)
  have 1: "applyFilters ns t1 o1 gw1 s = Inr ([], s\<lparr>users := visible (users s) (t1, o1)\<rparr>)"
    using assms(2) filterUsers_visible[OF assms(1), of t1 o1] by (auto simp: applyFilters_def)
  have 2: "applyFilters ns t2 o2 gw2 (s\<lparr>users := visible (users s) (t1, o1)\<rparr>)
             = Inr ([], s\<lparr>users := visible (visible (users s) (t1, o1)) (t2, o2)\<rparr>)"
    using assms(3) filterUsers_visible[OF wf1, of t2 o2] by (auto simp: applyFilters_def)
  have 3: "visible (visible (users s) (t1, o1)) (t2, o2)
             = filter (\<lambda>u. (text_pred t1 u \<and> org_pred o1 u) \<and> (text_pred t2 u \<and> org_pred o2 u))
                 (users s)"
    by (simp add: visible_def)
  from 1 2 3 show ?thesis by blast
qed

theorem successive_filters_compound_witness:
  "applyFilters ns0 ''anna'' [] (Rejected JNull) two_loaded
     = Inr ([], two_loaded\<lparr>users := [user_a]\<rparr>)
   \<and> applyFilters ns0 ''bob'' [] (Rejected JNull) (two_loaded\<lparr>users := [user_a]\<rparr>)
     = Inr ([], two_loaded\<lparr>users := []\<rparr>)"
proof -
  have v: "visible [user_a, user_b] (''anna'', []) = [user_a]" by code_simp
  have w: "visible [user_a] (''bob'', []) = []" by code_simp
  have wf: "\<forall>u\<in>set (users two_loaded). wf_user u"
    by (simp add: two_loaded_def wf_user_def user_a_def user_b_def field_of_def text_fields_def)
  show ?thesis
    using successive_filters_compound[OF wf, of "''anna''" "[]" "''bob''" "[]" ns0 "Rejected JNull" "Rejected JNull"] v w
    by (simp add: two_loaded_def)
qed

section \<open>The organisation index\<close>

lemma strict_eq_primitive: "is_primitive v \<Longrightarrow> strict_eq x v \<longleftrightarrow> x = v"
  by (cases v; cases x) auto

lemma addOrg_named:
  assumes "is_object m" and "absent_or_string (field_of m ''orgName'')"
  shows "addOrg acc m = Inr (org_step acc m)"
proof -
  obtain fs where m: "m = JObj fs" using assms(1) by (cases m) auto
  have g: "get_prop m ''orgName'' = Inr (field_of m ''orgName'')" by (simp add: m field_of_def)
  show ?thesis using assms(2)
    by (cases "field_of m ''orgName''")
       (auto simp: addOrg_def g org_step_def set_add_def list_ex_iff strict_eq_primitive)
qed

lemma forEach_addOrg:
  assumes "\<forall>m\<in>set ms. is_object m \<and> absent_or_string (field_of m ''orgName'')"
  shows "js_forEach addOrg ms acc = Inr (foldl org_step acc ms)"
  using assms by (induction ms arbitrary: acc) (simp_all add: addOrg_named)

lemma addUserOrgs_wf:
  assumes "wf_user u" and "named_memberships u"
  shows "addUserOrgs acc u = Inr (foldl org_step acc (memberships u))"
proof -
  obtain fs where u: "u = JObj fs" using assms(1) by (cases u) (auto simp: wf_user_def)
  have g: "get_prop u ''organisations'' = Inr (field_of u ''organisations'')"
    by (simp add: u field_of_def)
  show ?thesis
  proof (cases "field_of u ''organisations''")
    case (JArr ms)
    then have "\<forall>m\<in>set ms. is_object m \<and> absent_or_string (field_of m ''orgName'')"
      using assms by (auto simp: wf_user_def named_memberships_def memberships_def list_all_iff)
    then show ?thesis using JArr
      by (simp add: addUserOrgs_def g memberships_def forEach_addOrg)
  qed (use assms g in \<open>auto simp: addUserOrgs_def memberships_def wf_user_def\<close>)
qed

lemma forEach_addUserOrgs:
  assumes "\<forall>u\<in>set us. wf_user u \<and> named_memberships u"
  shows "js_forEach addUserOrgs us acc = Inr (foldl org_step acc (concat (map memberships us)))"
  using assms by (induction us arbitrary: acc) (simp_all add: addUserOrgs_wf)

lemma membership_names_Nil: "membership_names [] = []"
  by (simp add: membership_names_def)

lemma membership_names_Cons_str:
  "field_of m ''orgName'' = JStr n \<Longrightarrow> membership_names (m # ms) = (if n = [] then [] else [n]) @ membership_names ms"
  by (simp add: membership_names_def)

lemma membership_names_Cons_other:
  "\<forall>n. field_of m ''orgName'' \<noteq> JStr n \<Longrightarrow> membership_names (m # ms) = membership_names ms"
  by (cases "field_of m ''orgName''") (simp_all add: membership_names_def)

lemma org_step_other:
  "\<forall>n. field_of m ''orgName'' \<noteq> JStr n \<Longrightarrow> org_step acc m = acc"
  by (cases "field_of m ''orgName''") (simp_all add: org_step_def)

lemma foldl_org_step:
  "\<exists>ds. foldl org_step (map JStr acc) ms = map JStr ds \<and> set ds = set acc \<union> set (membership_names ms)
        \<and> (distinct acc \<longrightarrow> distinct ds)"
proof (induction ms arbitrary: acc)
  case Nil
  then show ?case by (auto simp: membership_names_Nil)
next
  case (Cons m ms)
  show ?case
  proof (cases "\<exists>n. field_of m ''orgName'' = JStr n")
    case True
    then obtain n where n: "field_of m ''orgName'' = JStr n" by blast
    show ?thesis
    proof (cases "n = [] \<or> n \<in> set acc")
      case True
      then have "org_step (map JStr acc) m = map JStr acc"
        using n by (auto simp: org_step_def)
      moreover have "set acc \<union> set (membership_names (m # ms)) = set acc \<union> set (membership_names ms)"
        using True by (auto simp: membership_names_Cons_str[OF n])
      ultimately show ?thesis using Cons.IH[of acc] by simp
    next
      case False
      then have "org_step (map JStr acc) m = map JStr (acc @ [n])"
        using n by (auto simp: org_step_def)
      moreover have "set acc \<union> set (membership_names (m # ms)) = set (acc @ [n]) \<union> set (membership_names ms)"
        using False by (auto simp: membership_names_Cons_str[OF n])
      moreover have "distinct acc \<longrightarrow> distinct (acc @ [n])" using False by simp
      ultimately show ?thesis using Cons.IH[of "acc @ [n]"] by auto
    qed
  next
    case False
    then have "\<forall>n. field_of m ''orgName'' \<noteq> JStr n" by blast
    then show ?thesis using Cons.IH[of acc] by (simp add: org_step_other membership_names_Cons_other)
  qed
qed

lemma insort_key_map_JStr:
  "insort_key (toString ns) (JStr x) (map JStr ys) = map JStr (insort x ys)"
  by (induction ys) auto

lemma sort_key_map_JStr: "sort_key (toString ns) (map JStr xs) = map JStr (sort xs)"
  by (induction xs) (simp_all add: insort_key_map_JStr)

lemma collect_sorted:
  assumes "\<forall>u\<in>set us. wf_user u \<and> named_memberships u"
  shows "\<exists>orgSet. collectOrganisations us = Inr orgSet \<and> sortOrgs ns orgSet = organisation_index us"
proof -
  obtain ds where ds: "foldl org_step [] (concat (map memberships us)) = map JStr ds"
    and set_ds: "set ds = set (membership_names (concat (map memberships us)))"
    and dist: "distinct ds"
    using foldl_org_step[of "[]" "concat (map memberships us)"] by auto
  have c: "collectOrganisations us = Inr (map JStr ds)"
    using forEach_addUserOrgs[OF assms, of "[]"] ds by (simp add: collectOrganisations_def)
  have "set ds = set (name_strings us)" using set_ds by (simp add: name_strings_def)
  moreover note dist
  ultimately have "sort ds = sort (remdups (name_strings us))"
    by (metis sorted_list_of_set_sort_remdups distinct_remdups_id)
  then have "sortOrgs ns (map JStr ds) = organisation_index us"
    by (simp add: sortOrgs_def organisation_index_def sort_key_map_JStr)
  with c show ?thesis by blast
qed

lemma normalizeResponse_Inr:
  "normalizeResponse r = Inr us \<longleftrightarrow>
     (\<exists>ul. extractUserList r = Inr ul \<and> us = (if isArray ul then elements ul else []))"
  by (auto simp: normalizeResponse_def split: sum.splits)

text \<open>At mount the timer callback sees no user and sets the empty index.\<close>

lemma extractOrganisations_at_mount:
  "extractOrganisations ns initial_store = Inr initial_store"
  by (simp add: extractOrganisations_def collectOrganisations_def sortOrgs_def initial_store_def)

text \<open>
  C4, as claimed: after every successful refresh, one that yields no user included, the
  index is the sorted, duplicate-free list of the organisation names of the loaded users.
  With one user of Acme loaded and the index \<open>[Acme]\<close>, a refresh that yields the empty
  list empties the users and keeps the index \<open>[Acme]\<close>; the index of no user is empty.
\<close>

theorem refresh_index_counterexample:
  "fetchUsers ns0 (Resolved (JArr [])) acme_loaded = ([GetUsers], acme_loaded\<lparr>users := []\<rparr>)
   \<and> organisations (snd (fetchUsers ns0 (Resolved (JArr [])) acme_loaded)) = [JStr ''Acme'']
   \<and> organisation_index (users (snd (fetchUsers ns0 (Resolved (JArr [])) acme_loaded))) = []
   \<and> organisations (snd (fetchUsers ns0 (Resolved (JArr [])) acme_loaded))
       \<noteq> organisation_index (users (snd (fetchUsers ns0 (Resolved (JArr [])) acme_loaded)))"
proof -
  have f: "fetchUsers ns0 (Resolved (JArr [])) acme_loaded = ([GetUsers], acme_loaded\<lparr>users := []\<rparr>)"
    by (simp add: fetchUsers_def extractUserList_def acme_loaded_def initial_store_def)
  have i: "organisation_index [] = []"
    by (simp add: organisation_index_def name_strings_def membership_names_def)
  show ?thesis by (simp add: f i) (simp add: acme_loaded_def)
qed

text \<open>
  C4, amended. After a successful refresh that yields at least one user, all of them
  records of the data model with string names in their memberships, the index is the
  sorted, duplicate-free list of the non-empty organisation names across the memberships
  of the loaded users. A refresh that yields no user leaves the index as it was: the
  index is computed only under the guard \<open>userList.length > 0\<close>.
\<close>

theorem refresh_recomputes_index:
  assumes "normalizeResponse response = Inr us"
    and "\<forall>u\<in>set us. wf_user u \<and> named_memberships u"
  shows "fetchUsers ns (Resolved response) s =
           ([GetUsers],
            s\<lparr>loading := False, error := None, users := us,
              organisations := (if us = [] then organisations s else organisation_index us)\<rparr>)"
proof -
  obtain ul where ul: "extractUserList response = Inr ul"
    and us: "us = (if isArray ul then elements ul else [])"
    using assms(1) by (auto simp: normalizeResponse_Inr)
  show ?thesis
  proof (cases "us = []")
    case True
    then have "\<not> (isArray ul \<and> length (elements ul) > 0)" using us by auto
    then show ?thesis using True us ul by (simp add: fetchUsers_def)
  next
    case False
    then have arr: "isArray ul" and el: "elements ul = us" using us by (auto split: if_splits)
    obtain orgSet where "collectOrganisations us = Inr orgSet"
      and "sortOrgs ns orgSet = organisation_index us"
      using collect_sorted[OF assms(2), of ns] by blast
    then show ?thesis using False arr el ul by (simp add: fetchUsers_def)
  qed
qed

theorem refresh_recomputes_index_witness:
  "fetchUsers ns0 (Resolved (JObj [(''content'', JArr [zeta_user, acme_admin, acme_plain, no_org])]))
     acme_loaded
   = ([GetUsers],
      acme_loaded\<lparr>users := [zeta_user, acme_admin, acme_plain, no_org],
        organisations := [JStr ''Acme'', JStr ''Zeta'']\<rparr>)
   \<and> fetchUsers ns0 (Resolved (JArr [])) acme_loaded = ([GetUsers], acme_loaded\<lparr>users := []\<rparr>)"
proof -
  have n: "normalizeResponse (JObj [(''content'', JArr [zeta_user, acme_admin, acme_plain, no_org])])
             = Inr [zeta_user, acme_admin, acme_plain, no_org]"
    by (simp add: normalizeResponse_def extractUserList_def)
  have wf: "\<forall>u\<in>set [zeta_user, acme_admin, acme_plain, no_org]. wf_user u \<and> named_memberships u"
    by (simp add: wf_user_def named_memberships_def memberships_def field_of_def text_fields_def
        zeta_user_def acme_admin_def acme_plain_def no_org_def)
  have i: "organisation_index [zeta_user, acme_admin, acme_plain, no_org] = [JStr ''Acme'', JStr ''Zeta'']"
    by code_simp
  have n0: "normalizeResponse (JArr []) = Inr []"
    by (simp add: normalizeResponse_def extractUserList_def)
  show ?thesis
    using refresh_recomputes_index[OF n wf, of ns0 acme_loaded]
      refresh_recomputes_index[OF n0, of ns0 acme_loaded] i
    by (simp add: acme_loaded_def initial_store_def)
qed

section \<open>The form controller\<close>

subsection \<open>The e-mail pattern\<close>

lemma rx_Once:
  "rx_match (Once c # ps) s \<longleftrightarrow> (\<exists>x b. s = x # b \<and> in_cls c x \<and> rx_match ps b)"
  by (cases s) auto

lemma rx_Many:
  "rx_match (Many c # ps) s \<longleftrightarrow>
     (\<exists>a b. s = a @ b \<and> a \<noteq> [] \<and> list_all (in_cls c) a \<and> rx_match ps b)"
proof (induction s)
  case Nil
  then show ?case by simp
next
  case (Cons x xs)
  show ?case
  proof
    assume "rx_match (Many c # ps) (x # xs)"
    then have x: "in_cls c x" and d: "rx_match (Many c # ps) xs \<or> rx_match ps xs" by auto
    from d show "\<exists>a b. x # xs = a @ b \<and> a \<noteq> [] \<and> list_all (in_cls c) a \<and> rx_match ps b"
    proof
      assume "rx_match (Many c # ps) xs"
      then obtain a b where "xs = a @ b" "a \<noteq> []" "list_all (in_cls c) a" "rx_match ps b"
        using Cons.IH by blast
      then have "x # xs = (x # a) @ b \<and> x # a \<noteq> [] \<and> list_all (in_cls c) (x # a) \<and> rx_match ps b"
        using x by simp
      then show ?thesis by blast
    next
      assume "rx_match ps xs"
      then have "x # xs = [x] @ xs \<and> [x] \<noteq> [] \<and> list_all (in_cls c) [x] \<and> rx_match ps xs"
        using x by simp
      then show ?thesis by blast
    qed
  next
    assume "\<exists>a b. x # xs = a @ b \<and> a \<noteq> [] \<and> list_all (in_cls c) a \<and> rx_match ps b"
    then obtain a b where ab: "x # xs = a @ b" "a \<noteq> []" "list_all (in_cls c) a" "rx_match ps b"
      by blast
    then obtain a' where a: "a = x # a'" and xs: "xs = a' @ b"
      by (cases a) auto
    have x: "in_cls c x" using ab(3) a by simp
    show "rx_match (Many c # ps) (x # xs)"
    proof (cases "a' = []")
      case True
      then show ?thesis using x xs ab(4) by simp
    next
      case False
      then have "rx_match (Many c # ps) xs"
        using Cons.IH xs ab(3,4) a by auto
      then show ?thesis using x by simp
    qed
  qed
qed

lemma plain_part_iff: "plain_part p \<longleftrightarrow> p \<noteq> [] \<and> list_all (in_cls NotSpaceNorAt) p"
  by (simp add: plain_part_def list_all_iff)

lemma rx_Many_plain:
  "rx_match (Many NotSpaceNorAt # ps) s \<longleftrightarrow> (\<exists>a b. s = a @ b \<and> plain_part a \<and> rx_match ps b)"
  unfolding rx_Many plain_part_iff by blast

lemma rx_Exactly:
  "rx_match (Once (Exactly c) # ps) s \<longleftrightarrow> (\<exists>b. s = c # b \<and> rx_match ps b)"
  unfolding rx_Once by auto

lemma rx_last: "rx_match [Many NotSpaceNorAt] s \<longleftrightarrow> plain_part s"
  unfolding rx_Many_plain by simp

lemma email_pattern_local_at_domain: "rx_match email_pattern s = local_at_domain s"
proof
  assume "rx_match email_pattern s"
  then obtain l r1 where 1: "s = l @ r1" "plain_part l"
    and "rx_match [Once (Exactly CHR ''@''), Many NotSpaceNorAt, Once (Exactly CHR ''.''),
                   Many NotSpaceNorAt] r1"
    unfolding email_pattern_def rx_Many_plain[of "_ # _"] by blast
  then obtain r2 where 2: "r1 = CHR ''@'' # r2"
    and "rx_match [Many NotSpaceNorAt, Once (Exactly CHR ''.''), Many NotSpaceNorAt] r2"
    unfolding rx_Exactly by blast
  then obtain d r3 where 3: "r2 = d @ r3" "plain_part d"
    and "rx_match [Once (Exactly CHR ''.''), Many NotSpaceNorAt] r3"
    unfolding rx_Many_plain[of "_ # _"] by blast
  then obtain t where 4: "r3 = CHR ''.'' # t" and 5: "plain_part t"
    unfolding rx_Exactly rx_last by blast
  have "s = l @ ''@'' @ d @ ''.'' @ t" using 1 2 3 4 by simp
  then show "local_at_domain s" using 1 3 5 unfolding local_at_domain_def by blast
next
  assume "local_at_domain s"
  then obtain l d t where s: "s = l @ ''@'' @ d @ ''.'' @ t"
    and p: "plain_part l" "plain_part d" "plain_part t"
    unfolding local_at_domain_def by blast
  have "rx_match [Once (Exactly CHR ''.''), Many NotSpaceNorAt] (''.'' @ t)"
    using p(3) by (simp add: rx_Exactly rx_last)
  then have "rx_match [Many NotSpaceNorAt, Once (Exactly CHR ''.''), Many NotSpaceNorAt]
               (d @ ''.'' @ t)"
    using p(2) unfolding rx_Many_plain[of "_ # _"] by blast
  then have "rx_match [Once (Exactly CHR ''@''), Many NotSpaceNorAt, Once (Exactly CHR ''.''),
                       Many NotSpaceNorAt] (''@'' @ d @ ''.'' @ t)"
    by (simp add: rx_Exactly)
  then show "rx_match email_pattern s"
    using p(1) unfolding email_pattern_def s rx_Many_plain[of "_ # _"] by blast
qed

subsection \<open>Validation\<close>

lemma requiredMissing_typed:
  "absent_or_string v \<Longrightarrow> requiredMissing v = Inr (blank v)"
  by (cases v) (auto simp: requiredMissing_def blank_def trim_def)

lemma checkRequired_typed:
  "absent_or_string (lookup d k) \<Longrightarrow>
     checkRequired d k msg = Inr (if blank (lookup d k) then [(k, msg)] else [])"
  by (simp add: checkRequired_def requiredMissing_typed)

lemma checkMail_typed:
  "absent_or_string (lookup d ''mail'') \<Longrightarrow>
     checkMail d =
       Inr (if blank (lookup d ''mail'') then [(''mail'', mailRequired)]
            else if \<not> mail_ok (lookup d ''mail'') then [(''mail'', mailInvalid)] else [])"
  by (cases "lookup d ''mail''")
     (auto simp: checkMail_def requiredMissing_typed mail_ok_def blank_def
        email_pattern_local_at_domain)

lemma blank_not_mail_ok: "blank v \<Longrightarrow> \<not> mail_ok v"
proof (cases v)
  case (JStr s)
  assume "blank v"
  then have t: "trim s = []" using JStr by (simp add: blank_def)
  have "\<not> local_at_domain s"
  proof
    assume "local_at_domain s"
    then obtain l d t where s: "s = l @ ''@'' @ d @ ''.'' @ t" and "plain_part l"
      unfolding local_at_domain_def by blast
    then obtain c l' where l: "l = c # l'" and c: "\<not> is_space c"
      by (cases l) (auto simp: plain_part_def)
    have "dropWhile is_space s \<noteq> []" using s l c by simp
    then have "rev (dropWhile is_space s) \<noteq> []" by simp
    moreover have "\<exists>x\<in>set (rev (dropWhile is_space s)). \<not> is_space x"
      using s l c by auto
    ultimately have "dropWhile is_space (rev (dropWhile is_space s)) \<noteq> []"
      by (simp add: dropWhile_eq_Nil_conv)
    then show False using t by (simp add: trim_def)
  qed
  then show ?thesis using JStr by (simp add: mail_ok_def)
qed (simp_all add: mail_ok_def)


lemma newErrors_typed:
  assumes "list_all (\<lambda>k. absent_or_string (lookup d k))
             [''username'', ''firstname'', ''lastname'', ''mail'']"
  shows "newErrors d =
     Inr ((if blank (lookup d ''username'') then [(''username'', usernameRequired)] else [])
          @ (if blank (lookup d ''firstname'') then [(''firstname'', firstnameRequired)] else [])
          @ (if blank (lookup d ''lastname'') then [(''lastname'', lastnameRequired)] else [])
          @ (if blank (lookup d ''mail'') then [(''mail'', mailRequired)]
             else if \<not> mail_ok (lookup d ''mail'') then [(''mail'', mailInvalid)] else []))"
  using assms by (simp add: newErrors_def checkRequired_typed checkMail_typed)

text \<open>
  C7. For a draft whose four required fields are strings (or absent), \<open>validateForm\<close>
  returns without an exception, stores the errors and answers whether there is none; the
  errors have an entry for the username, the first name and the last name exactly when
  that field is blank, an entry for the e-mail exactly when it is blank or not of the
  form local@domain, and never an entry for the phone, the organisation or the role.
  The empty draft gets the four entries; with the other fields filled, the e-mail
  \<open>a@b\<close> gets the entry for an invalid address and \<open>a@b.com\<close> gets no entry.
\<close>

theorem validateForm_field_errors:
  "(list_all (\<lambda>k. absent_or_string (lookup (formData f) k))
       [''username'', ''firstname'', ''lastname'', ''mail'']
    \<longrightarrow> (\<exists>errs. validateForm f = Inr (errs = [], f\<lparr>errors := errs\<rparr>)
          \<and> has_error errs ''username'' = blank (lookup (formData f) ''username'')
          \<and> has_error errs ''firstname'' = blank (lookup (formData f) ''firstname'')
          \<and> has_error errs ''lastname'' = blank (lookup (formData f) ''lastname'')
          \<and> has_error errs ''mail''
              = (blank (lookup (formData f) ''mail'') \<or> \<not> mail_ok (lookup (formData f) ''mail''))
          \<and> \<not> has_error errs ''phone''
          \<and> \<not> has_error errs ''organisation''
          \<and> \<not> has_error errs ''role''))
   \<and> validateForm initial_form
       = Inr (False,
              initial_form\<lparr>errors := [(''username'', usernameRequired),
                (''firstname'', firstnameRequired), (''lastname'', lastnameRequired),
                (''mail'', mailRequired)]\<rparr>)
   \<and> newErrors (filled_draft ''a@b'') = Inr [(''mail'', mailInvalid)]
   \<and> newErrors (filled_draft ''a@b.com'') = Inr []"
proof -
  have general: "\<exists>errs. validateForm f = Inr (errs = [], f\<lparr>errors := errs\<rparr>)
          \<and> has_error errs ''username'' = blank (lookup (formData f) ''username'')
          \<and> has_error errs ''firstname'' = blank (lookup (formData f) ''firstname'')
          \<and> has_error errs ''lastname'' = blank (lookup (formData f) ''lastname'')
          \<and> has_error errs ''mail''
              = (blank (lookup (formData f) ''mail'') \<or> \<not> mail_ok (lookup (formData f) ''mail''))
          \<and> \<not> has_error errs ''phone''
          \<and> \<not> has_error errs ''organisation''
          \<and> \<not> has_error errs ''role''"
    if typed: "list_all (\<lambda>k. absent_or_string (lookup (formData f) k))
       [''username'', ''firstname'', ''lastname'', ''mail'']"
  proof -
    let ?d = "formData f"
    let ?errs = "(if blank (lookup ?d ''username'') then [(''username'', usernameRequired)] else [])
          @ (if blank (lookup ?d ''firstname'') then [(''firstname'', firstnameRequired)] else [])
          @ (if blank (lookup ?d ''lastname'') then [(''lastname'', lastnameRequired)] else [])
          @ (if blank (lookup ?d ''mail'') then [(''mail'', mailRequired)]
             else if \<not> mail_ok (lookup ?d ''mail'') then [(''mail'', mailInvalid)] else [])"
    have v: "validateForm f = Inr (?errs = [], f\<lparr>errors := ?errs\<rparr>)"
      by (simp add: validateForm_def newErrors_typed[OF typed])
    have u: "has_error ?errs ''username'' = blank (lookup ?d ''username'')"
      by (simp add: has_error_def)
    have fn: "has_error ?errs ''firstname'' = blank (lookup ?d ''firstname'')"
      by (simp add: has_error_def)
    have ln: "has_error ?errs ''lastname'' = blank (lookup ?d ''lastname'')"
      by (simp add: has_error_def)
    have m: "has_error ?errs ''mail'' = (blank (lookup ?d ''mail'') \<or> \<not> mail_ok (lookup ?d ''mail''))"
      by (simp add: has_error_def)
    have o: "\<not> has_error ?errs ''phone''" "\<not> has_error ?errs ''organisation''"
      "\<not> has_error ?errs ''role''"
      by (simp_all add: has_error_def)
    from v u fn ln m o show ?thesis by blast
  qed
  have e: "validateForm initial_form
       = Inr (False,
              initial_form\<lparr>errors := [(''username'', usernameRequired),
                (''firstname'', firstnameRequired), (''lastname'', lastnameRequired),
                (''mail'', mailRequired)]\<rparr>)"
    by (simp add: validateForm_def newErrors_def checkRequired_def checkMail_def
        requiredMissing_def initial_form_def emptyDraft_def lookup_def)
  have a: "newErrors (filled_draft ''a@b'') = Inr [(''mail'', mailInvalid)]"
    by code_simp
  have b: "newErrors (filled_draft ''a@b.com'') = Inr []"
    by code_simp
  from general e a b show ?thesis by blast
qed

theorem validateForm_field_errors_witness:
  "validateForm (initial_form\<lparr>formData := filled_draft ''a b@c.de''\<rparr>)
     = Inr (False, initial_form\<lparr>formData := filled_draft ''a b@c.de'',
                     errors := [(''mail'', mailInvalid)]\<rparr>)
   \<and> \<not> mail_ok (JStr ''a b@c.de'')"
proof -
  have t: "list_all (\<lambda>k. absent_or_string (lookup (formData (initial_form\<lparr>formData := filled_draft ''a b@c.de''\<rparr>)) k))
       [''username'', ''firstname'', ''lastname'', ''mail'']"
    by (simp add: filled_draft_def lookup_def)
  have v: "validateForm (initial_form\<lparr>formData := filled_draft ''a b@c.de''\<rparr>)
     = Inr (False, initial_form\<lparr>formData := filled_draft ''a b@c.de'',
                     errors := [(''mail'', mailInvalid)]\<rparr>)"
    by code_simp
  let ?F = "initial_form\<lparr>formData := filled_draft ''a b@c.de''\<rparr>"
  obtain errs where eq: "validateForm ?F = Inr (errs = [], ?F\<lparr>errors := errs\<rparr>)"
     and m: "has_error errs ''mail''
              = (blank (lookup (filled_draft ''a b@c.de'') ''mail'')
                 \<or> \<not> mail_ok (lookup (filled_draft ''a b@c.de'') ''mail''))"
    using validateForm_field_errors[of ?F] t by auto
  have "?F\<lparr>errors := errs\<rparr> = ?F\<lparr>errors := [(''mail'', mailInvalid)]\<rparr>"
    using v eq by simp
  then have "errors (?F\<lparr>errors := errs\<rparr>) = errors (?F\<lparr>errors := [(''mail'', mailInvalid)]\<rparr>)"
    by (rule arg_cong)
  then have "errs = [(''mail'', mailInvalid)]" by simp
  then have "\<not> mail_ok (JStr ''a b@c.de'')"
    using m by (simp add: has_error_def filled_draft_def lookup_def blank_def trim_def is_space_def)
  with v show ?thesis by blast
qed

subsection \<open>Submitting\<close>

lemma formData_handleChange:
  "formData (handleChange k v f) = AList.update k (JStr v) (formData f)"
  by (simp add: handleChange_def Let_def)

lemma lookup_update_other: "k \<noteq> k' \<Longrightarrow> lookup (AList.update k v d) k' = lookup d k'"
  by (simp add: lookup_def update_conv')

lemma identity_edited:
  "\<forall>e\<in>set edits. fst e \<noteq> ''userUid'' \<Longrightarrow>
     lookup (formData (edited f edits)) ''userUid'' = lookup (formData f) ''userUid''"
  unfolding edited_def
  by (induction edits arbitrary: f) (simp_all add: formData_handleChange lookup_update_other)

lemma identity_loaded:
  "has_identity (loadedDraft editUser organisation role)
     = (truthy editUser \<and> truthy (opt_prop editUser ''userUid''))"
  by (simp add: has_identity_def loadedDraft_def lookup_def emptyDraft_def js_or_def)

lemma form_fields_not_identity: "k \<in> set form_fields \<Longrightarrow> k \<noteq> ''userUid''"
  by (auto simp: form_fields_def)

lemma submitCall_identity:
  assumes "f = edited (loadEffect editUser organisation role g) edits"
    and "\<forall>e\<in>set edits. fst e \<in> set form_fields"
  shows "submitCall editUser (formData f)
           = (if has_identity (formData f) then UpdateUser (JObj (formData f))
              else CreateUser (JObj (formData f)))"
proof -
  have "\<forall>e\<in>set edits. fst e \<noteq> ''userUid''"
    using assms(2) form_fields_not_identity by blast
  then have "has_identity (formData f) = has_identity (loadedDraft editUser organisation role)"
    using identity_edited[of edits "loadEffect editUser organisation role g"]
    by (simp add: assms(1) has_identity_def loadEffect_def)
  then show ?thesis by (simp add: submitCall_def identity_loaded)
qed

text \<open>
  C6. The draft is what the effect loaded for \<open>editUser\<close>, edited in any of the seven
  inputs. \<open>handleSubmit\<close> validates it first. When the validation throws or finds an
  error, no gateway call is made, and in the second case the errors are stored. When
  the draft is valid exactly one call is made: the update call when the draft carries an
  identity, the create call when it carries none.
\<close>

theorem handleSubmit_validates_then_branches:
  assumes "f = edited (loadEffect editUser organisation role g) edits"
    and "\<forall>e\<in>set edits. fst e \<in> set form_fields"
  shows "case newErrors (formData f) of
           Inl e \<Rightarrow> handleSubmit editUser gw f = ([], f, Some e)
         | Inr errs \<Rightarrow>
             if errs \<noteq> [] then handleSubmit editUser gw f = ([], f\<lparr>errors := errs\<rparr>, None)
             else fst (handleSubmit editUser gw f)
                    = [if has_identity (formData f) then UpdateUser (JObj (formData f))
                       else CreateUser (JObj (formData f))]"
proof (cases "newErrors (formData f)")
  case (Inl e)
  then show ?thesis by (simp add: handleSubmit_def validateForm_def)
next
  case (Inr errs)
  show ?thesis
  proof (cases "errs = []")
    case True
    have "fst (handleSubmit editUser gw f) = [submitCall editUser (formData f)]"
      using Inr True
      by (cases gw) (simp_all add: handleSubmit_def validateForm_def Let_def split: sum.splits)
    then show ?thesis using Inr True submitCall_identity[OF assms] by simp
  next
    case False
    then show ?thesis using Inr by (simp add: handleSubmit_def validateForm_def)
  qed
qed

theorem handleSubmit_validates_then_branches_witness:
  "fst (handleSubmit JNull (Resolved JNull) (edited (loadEffect JNull JNull JNull initial_form) anna_edits))
     = [CreateUser (JObj (filled_draft ''am@example.org''))]
   \<and> fst (handleSubmit anna_stored (Resolved JNull)
            (edited (loadEffect anna_stored (JStr []) (JStr []) initial_form) [(''phone'', ''12'')]))
     = [UpdateUser (JObj [(''userUid'', JStr ''7''), (''username'', JStr ''amei''),
          (''firstname'', JStr ''Anna''), (''lastname'', JStr ''Meier''),
          (''mail'', JStr ''am@example.org''), (''phone'', JStr ''12''),
          (''organisation'', JStr []), (''role'', JStr [])])]
   \<and> fst (handleSubmit JNull (Resolved JNull) (edited (loadEffect JNull JNull JNull initial_form) []))
     = []"
proof -
  let ?f1 = "edited (loadEffect JNull JNull JNull initial_form) anna_edits"
  let ?f2 = "edited (loadEffect anna_stored (JStr []) (JStr []) initial_form) [(''phone'', ''12'')]"
  let ?f3 = "edited (loadEffect JNull JNull JNull initial_form) []"
  have d1: "formData ?f1 = filled_draft ''am@example.org''" by code_simp
  have d2: "formData ?f2 = [(''userUid'', JStr ''7''), (''username'', JStr ''amei''),
          (''firstname'', JStr ''Anna''), (''lastname'', JStr ''Meier''),
          (''mail'', JStr ''am@example.org''), (''phone'', JStr ''12''),
          (''organisation'', JStr []), (''role'', JStr [])]" by code_simp
  have n1: "newErrors (formData ?f1) = Inr []" by code_simp
  have n2: "newErrors (formData ?f2) = Inr []" by code_simp
  have n3: "newErrors (formData ?f3) \<noteq> Inr []" by code_simp
  have i1: "\<not> has_identity (formData ?f1)" by code_simp
  have i2: "has_identity (formData ?f2)" by code_simp
  have e1: "\<forall>e\<in>set anna_edits. fst e \<in> set form_fields"
    by (simp add: anna_edits_def form_fields_def)
  have e2: "\<forall>e\<in>set [(''phone'', ''12'')]. fst e \<in> set form_fields"
    by (simp add: form_fields_def)
  have e3: "\<forall>e\<in>set ([] :: (string \<times> string) list). fst e \<in> set form_fields" by simp
  have 1: "fst (handleSubmit JNull (Resolved JNull) ?f1) = [CreateUser (JObj (filled_draft ''am@example.org''))]"
    using handleSubmit_validates_then_branches[where editUser = JNull and organisation = JNull
          and role = JNull and g = initial_form and gw = "Resolved JNull", OF refl e1]
      n1 i1 d1 by simp
  have 2: "fst (handleSubmit anna_stored (Resolved JNull) ?f2) = [UpdateUser (JObj (formData ?f2))]"
    using handleSubmit_validates_then_branches[where editUser = anna_stored and organisation = "JStr []"
          and role = "JStr []" and g = initial_form and gw = "Resolved JNull", OF refl e2]
      n2 i2 by simp
  have 3: "fst (handleSubmit JNull (Resolved JNull) ?f3) = []"
    using handleSubmit_validates_then_branches[where editUser = JNull and organisation = JNull
          and role = JNull and g = initial_form and gw = "Resolved JNull", OF refl e3]
      n3 by (auto split: sum.splits if_splits)
  from 1 2 3 d2 show ?thesis by simp
qed

end
